theory Spec2Isabelle
  imports Complex_Main
begin

section \<open>StarCharter: ephemeris tracks (src/astroGraphics/ephemeris.c)\<close>

text \<open>
  A shallow embedding of \<^verbatim>\<open>ephemerides_fetch\<close> and of the tick loop of
  \<^verbatim>\<open>plot_ephemeris\<close>. C \<^verbatim>\<open>double\<close> values are idealised as \<^typ>\<open>real\<close>, C \<^verbatim>\<open>int\<close>
  values as \<^typ>\<open>int\<close>; array accesses are checked against the allocated length,
  and an access outside the allocation is the error value \<open>OutOfBounds\<close>.
\<close>

subsection \<open>Data model\<close>

datatype error = Fatal string | OutOfBounds

datatype projection_kind = SW_PROJECTION_FLAT | SW_PROJECTION_GNOM | SW_PROJECTION_OTHER nat

record ephemeris_point =
  ra :: real
  dec :: real
  text_label :: "string option"
  day :: int
  month :: int
  year :: int
  sub_month_label :: int

record ephemeris =
  jd_start :: real
  jd_end :: real
  jd_step :: real
  point_count :: int
  data :: "ephemeris_point list"

text \<open>The fields of \<^verbatim>\<open>chart_config\<close> that ephemeris.c reads or writes.\<close>

record chart_config =
  ephemeris_autoscale :: int
  ra0 :: real
  dec0 :: real
  projection :: projection_kind
  angular_width :: real
  aspect :: real
  width :: real
  font_size :: real
  mag_min :: real
  maximum_star_label_count :: int
  dso_names :: int
  star_flamsteed_labels :: int
  ephemeris_data :: "ephemeris list"
  x_min :: real
  x_max :: real
  y_min :: real
  y_max :: real
  wlin :: real




subsection \<open>Label priority (plot_ephemeris, lines 528-536)\<close>

text \<open>A C comparison or negation used as a number: 1 when it holds, 0 otherwise.\<close>

definition c_bool :: "bool \<Rightarrow> real" where
  "c_bool b = (if b then 1 else 0)"

definition priority :: "nat \<Rightarrow> ephemeris_point \<Rightarrow> real" where
  "priority i p =
     0.0123 +
     1 / 10 ^ 12 * real i -
     4 / 10 ^ 6 * c_bool (sub_month_label p = 0) -
     1 / 10 ^ 7 * c_bool (day p = 14) -
     3 / 10 ^ 7 * c_bool (month p = 1) -
     2 / 10 ^ 7 * c_bool (month p = 7) -
     1 / 10 ^ 7 * c_bool (month p = 4 \<or> month p = 11)"

text \<open>A labelled point as the loader stores it, for a given date and minor/major flag.\<close>

definition labelled :: "int \<Rightarrow> int \<Rightarrow> int \<Rightarrow> ephemeris_point" where
  "labelled d m sub =
     \<lparr>ra = 0, dec = 0, text_label = Some [], day = d, month = m, year = 2022,
      sub_month_label = sub\<rparr>"


subsection \<open>External collaborators\<close>

text \<open>
  The functions below are called by ephemeris.c and live in other files of the
  repository; they are parameters of the model. \<open>get_columns\<close> stands for the three
  \<^verbatim>\<open>get_float\<close>/\<^verbatim>\<open>next_word\<close> calls on an accepted line (Julian day, RA, Dec) and
  \<open>inv_julian_day\<close> returns (year, month, day).
\<close>

record externals =
  get_month_name :: "int \<Rightarrow> string"
  get_columns :: "string \<Rightarrow> real \<times> real \<times> real"
  inv_julian_day :: "real \<Rightarrow> int \<times> int \<times> int"
  find_mean_position :: "real list \<Rightarrow> real list \<Rightarrow> real \<times> real"
  plane_project :: "chart_config \<Rightarrow> real \<Rightarrow> real \<Rightarrow> real \<times> real"

subsection \<open>C conversions and formatting\<close>

text \<open>The cast \<^verbatim>\<open>(int) x\<close> of a double truncates towards zero.\<close>

definition c_int :: "real \<Rightarrow> int" where
  "c_int x = (if 0 \<le> x then \<lfloor>x\<rfloor> else \<lceil>x\<rceil>)"

definition digit_char :: "nat \<Rightarrow> char" where
  "digit_char n = ''0123456789'' ! n"

fun show_nat :: "nat \<Rightarrow> string" where
  "show_nat n = (if n < 10 then [digit_char n] else show_nat (n div 10) @ [digit_char (n mod 10)])"

declare show_nat.simps [simp del]

text \<open>\<^verbatim>\<open>%d\<close> of printf (and \<^verbatim>\<open>%.0f\<close> of a whole number).\<close>

definition show_int :: "int \<Rightarrow> string" where
  "show_int k = (if k < 0 then CHR ''-'' # show_nat (nat (- k)) else show_nat (nat k))"

text \<open>
  \<^verbatim>\<open>strncmp(a, b, n) != 0\<close> on C strings (which hold no NUL before their end):
  the first \<open>n\<close> characters differ.
\<close>

definition strncmp_differs :: "string \<Rightarrow> string \<Rightarrow> nat \<Rightarrow> bool" where
  "strncmp_differs a b n = (take n a \<noteq> take n b)"

text \<open>Line 122: a character skipped at the start of a line, \<^verbatim>\<open>'\0' < c <= ' '\<close>.\<close>

definition c_space :: "char \<Rightarrow> bool" where
  "c_space c = (0 < (of_char c :: nat) \<and> (of_char c :: nat) \<le> 32)"

subsection \<open>Loading one track (ephemerides_fetch, lines 62-194)\<close>

record track_input =
  jd_min :: real
  jd_max :: real
  generator_output :: "string list"

text \<open>Lines 152-163: the candidate label and its minor (sub-month) flag.\<close>

definition make_label :: "(int \<Rightarrow> string) \<Rightarrow> string \<Rightarrow> int \<Rightarrow> int \<Rightarrow> int \<Rightarrow> string \<times> int" where
  "make_label mn previous_label y m d =
     (if d > 6 then (show_int (\<lfloor>real_of_int d / 7\<rfloor> * 7), 1)
      else if m = 1 \<or> previous_label = [] then (take 3 (mn m) @ '' '' @ show_int y, 0)
      else (take 3 (mn m), 0))"

text \<open>Line 167: whether the candidate label is attached.\<close>

definition show_label :: "string \<Rightarrow> string \<Rightarrow> int \<Rightarrow> bool" where
  "show_label label previous_label d =
     (strncmp_differs label previous_label 3 \<and> (previous_label \<noteq> [] \<or> d = 1))"

text \<open>
  Lines 137-177: the point stored for one accepted line, and the new
  \<^verbatim>\<open>previous_label\<close>.
\<close>

definition store_point ::
  "(int \<Rightarrow> string) \<Rightarrow> string \<Rightarrow> real \<times> real \<times> int \<times> int \<times> int \<Rightarrow> ephemeris_point \<times> string" where
  "store_point mn previous_label r =
     (case r of (ra_v, dec_v, y, m, d) \<Rightarrow>
        (let (label, sub) = make_label mn previous_label y m d in
         if show_label label previous_label d
         then (\<lparr>ra = ra_v, dec = dec_v, text_label = Some label, day = d, month = m,
                year = y, sub_month_label = sub\<rparr>, label)
         else (\<lparr>ra = ra_v, dec = dec_v, text_label = None, day = 0, month = 0,
                year = 0, sub_month_label = 0\<rparr>, previous_label)))"

text \<open>Lines 130-135 and 149: the columns of an accepted line and its calendar date.\<close>

definition decode_line :: "externals \<Rightarrow> string \<Rightarrow> real \<times> real \<times> int \<times> int \<times> int" where
  "decode_line ext scan =
     (case get_columns ext scan of (jd, ra_v, dec_v) \<Rightarrow>
        (case inv_julian_day ext jd of (y, m, d) \<Rightarrow> (ra_v, dec_v, y, m, d)))"

text \<open>
  Lines 114-181: the loop over the generator's lines. The state is
  \<^verbatim>\<open>previous_label\<close> and the points stored so far; \<^verbatim>\<open>line_counter\<close> is the number
  of stored points. \<open>cap\<close> is the number of points allocated at line 88; the code
  does not compare \<^verbatim>\<open>line_counter\<close> with it, so a write at an index outside the
  allocation is the error \<open>OutOfBounds\<close>.
\<close>

fun read_lines ::
  "externals \<Rightarrow> int \<Rightarrow> string list \<Rightarrow> string \<times> ephemeris_point list \<Rightarrow>
   error + (string \<times> ephemeris_point list)" where
  "read_lines ext cap [] st = Inr st"
| "read_lines ext cap (line # rest) (previous_label, pts) =
     (let scan = dropWhile c_space line in
      if scan = [] then read_lines ext cap rest (previous_label, pts)
      else if hd scan = CHR ''#'' then read_lines ext cap rest (previous_label, pts)
      else if \<not> int (length pts) < cap then Inl OutOfBounds
      else
        (case store_point (get_month_name ext) previous_label (decode_line ext scan) of
           (pt, previous_label') \<Rightarrow> read_lines ext cap rest (previous_label', pts @ [pt])))"

text \<open>Lines 81-85: the estimate of the number of lines, which sizes the allocation.\<close>

definition capacity_estimate :: "real \<Rightarrow> real \<Rightarrow> real \<Rightarrow> int" where
  "capacity_estimate jd0 jd1 step = c_int (20 + (jd1 - jd0) / step)"

definition fetch_track :: "externals \<Rightarrow> track_input \<Rightarrow> error + ephemeris" where
  "fetch_track ext t =
     (let step = 0.5;
          cap = capacity_estimate (jd_min t) (jd_max t) step in
      case read_lines ext cap (generator_output t) ([], []) of
        Inl e \<Rightarrow> Inl e
      | Inr (previous_label, pts) \<Rightarrow>
          if length pts = 0 then Inl (Fatal ''ephemeris-compute-de430 returned no data'')
          else Inr \<lparr>jd_start = jd_min t, jd_end = jd_max t, jd_step = step,
                    point_count = int (length pts), data = pts\<rparr>)"

fun fetch_tracks :: "externals \<Rightarrow> track_input list \<Rightarrow> error + ephemeris list" where
  "fetch_tracks ext [] = Inr []"
| "fetch_tracks ext (t # ts) =
     (case fetch_track ext t of
        Inl e \<Rightarrow> Inl e
      | Inr e1 \<Rightarrow> (case fetch_tracks ext ts of Inl e \<Rightarrow> Inl e | Inr es \<Rightarrow> Inr (e1 # es)))"

text \<open>
  The lines the loop accepts (neither blank nor a comment), decoded; and the loop
  body iterated over them. Both restate \<open>read_lines\<close> and serve to state its
  properties.
\<close>

definition accepted :: "string \<Rightarrow> bool" where
  "accepted line = (dropWhile c_space line \<noteq> [] \<and> hd (dropWhile c_space line) \<noteq> CHR ''#'')"

definition accepted_records :: "externals \<Rightarrow> string list \<Rightarrow> (real \<times> real \<times> int \<times> int \<times> int) list" where
  "accepted_records ext lines =
     map (\<lambda>line. decode_line ext (dropWhile c_space line)) (filter accepted lines)"

fun label_points ::
  "(int \<Rightarrow> string) \<Rightarrow> string \<Rightarrow> (real \<times> real \<times> int \<times> int \<times> int) list \<Rightarrow> ephemeris_point list" where
  "label_points mn previous_label [] = []"
| "label_points mn previous_label (r # rs) =
     fst (store_point mn previous_label r) #
     label_points mn (snd (store_point mn previous_label r)) rs"


subsection \<open>Coverage grid (lines 49-56 and 203-217)\<close>

definition ra_bins :: int where
  "ra_bins = 24 * 8"

definition dec_bins :: int where
  "dec_bins = 18 * 8"

definition array_get :: "int list \<Rightarrow> int \<Rightarrow> error + int" where
  "array_get xs i = (if 0 \<le> i \<and> i < int (length xs) then Inr (xs ! nat i) else Inl OutOfBounds)"

definition array_set :: "int list \<Rightarrow> int \<Rightarrow> int \<Rightarrow> error + int list" where
  "array_set xs i v =
     (if 0 \<le> i \<and> i < int (length xs) then Inr (xs[nat i := v]) else Inl OutOfBounds)"

text \<open>Lines 210, 225 and 233: the RA bin of an angle in radians; line 211: the Dec bin.\<close>

definition ra_bin_of :: "real \<Rightarrow> int" where
  "ra_bin_of r = c_int (r / (2 * pi) * real_of_int ra_bins)"

definition dec_bin_of :: "real \<Rightarrow> int" where
  "dec_bin_of d = c_int ((d + pi / 2) / pi * real_of_int dec_bins)"

fun mark_points ::
  "ephemeris_point list \<Rightarrow> int list \<times> int list \<Rightarrow> error + (int list \<times> int list)" where
  "mark_points [] g = Inr g"
| "mark_points (p # ps) (ra_usage, dec_usage) =
     (case array_set ra_usage (ra_bin_of (ra p)) 1 of
        Inl e \<Rightarrow> Inl e
      | Inr ra_usage' \<Rightarrow>
          (case array_set dec_usage (dec_bin_of (dec p)) 1 of
             Inl e \<Rightarrow> Inl e
           | Inr dec_usage' \<Rightarrow> mark_points ps (ra_usage', dec_usage')))"

subsection \<open>Bounding scans (lines 225-284)\<close>

text \<open>Lines 237-238: bring the antipodal bin into the range of the RA array.\<close>

function raise_bin :: "int \<Rightarrow> int" where
  "raise_bin b = (if b < 0 then raise_bin (b + ra_bins) else b)"
  by pat_completeness auto
termination
  by (relation "measure (\<lambda>b. nat (- b))") (auto simp: ra_bins_def)

declare raise_bin.simps [simp del]

function lower_bin :: "int \<Rightarrow> int" where
  "lower_bin b = (if b \<ge> ra_bins then lower_bin (b - ra_bins) else b)"
  by pat_completeness auto
termination
  by (relation "measure (\<lambda>b. nat b)") (auto simp: ra_bins_def)

declare lower_bin.simps [simp del]

text \<open>
  Lines 243-251 and 254-262. Each scan returns the autoscale flag (cleared when the
  centroid's bin is reached on an empty bin) and the bin it stopped at. The RA loops
  have no bound of their own: not returning is the value \<open>None\<close>.
\<close>

partial_function (option) ra_scan_forward ::
  "int list \<Rightarrow> int \<Rightarrow> int \<Rightarrow> int \<Rightarrow> (error + int \<times> int) option" where
  "ra_scan_forward ra_usage ra_centre_bin autoscale ra_bin_min =
     (if ra_bin_min < 0 \<or> int (length ra_usage) \<le> ra_bin_min then Some (Inl OutOfBounds)
      else if ra_usage ! nat ra_bin_min \<noteq> 0 then Some (Inr (autoscale, ra_bin_min))
      else if ra_bin_min = ra_centre_bin then Some (Inr (0, ra_bin_min))
      else ra_scan_forward ra_usage ra_centre_bin autoscale ((ra_bin_min + 1) mod ra_bins))"

partial_function (option) ra_scan_backward ::
  "int list \<Rightarrow> int \<Rightarrow> int \<Rightarrow> int \<Rightarrow> (error + int \<times> int) option" where
  "ra_scan_backward ra_usage ra_centre_bin autoscale ra_bin_max =
     (if ra_bin_max < 0 \<or> int (length ra_usage) \<le> ra_bin_max then Some (Inl OutOfBounds)
      else if ra_usage ! nat ra_bin_max \<noteq> 0 then Some (Inr (autoscale, ra_bin_max))
      else if ra_bin_max = ra_centre_bin then Some (Inr (0, ra_bin_max))
      else ra_scan_backward ra_usage ra_centre_bin autoscale
             ((ra_bin_max + ra_bins - 1) mod ra_bins))"

text \<open>Lines 265-273 and 276-284.\<close>

function dec_scan_up :: "int list \<Rightarrow> int \<Rightarrow> int \<Rightarrow> error + int \<times> int" where
  "dec_scan_up dec_usage autoscale dec_bin_min =
     (if dec_bin_min < 0 \<or> int (length dec_usage) \<le> dec_bin_min then Inl OutOfBounds
      else if dec_usage ! nat dec_bin_min \<noteq> 0 then Inr (autoscale, dec_bin_min)
      else if dec_bin_min = dec_bins - 1 then Inr (0, dec_bin_min)
      else dec_scan_up dec_usage autoscale (dec_bin_min + 1))"
  by pat_completeness auto
termination
  by (relation "measure (\<lambda>(u, a, b). nat (int (length u) - b))") auto

declare dec_scan_up.simps [simp del]

function dec_scan_down :: "int list \<Rightarrow> int \<Rightarrow> int \<Rightarrow> error + int \<times> int" where
  "dec_scan_down dec_usage autoscale dec_bin_max =
     (if dec_bin_max < 0 \<or> int (length dec_usage) \<le> dec_bin_max then Inl OutOfBounds
      else if dec_usage ! nat dec_bin_max \<noteq> 0 then Inr (autoscale, dec_bin_max)
      else if dec_bin_max = 0 then Inr (0, dec_bin_max)
      else dec_scan_down dec_usage autoscale (dec_bin_max - 1))"
  by pat_completeness auto
termination
  by (relation "measure (\<lambda>(u, a, b). nat (b + 1))") auto

declare dec_scan_down.simps [simp del]

text \<open>
  Lines 225-284 together: from the two usage arrays, the centroid's RA and the
  caller's autoscale flag to the flag after the scans and the four bounding bins
  (\<open>ra_bin_min\<close>, \<open>ra_bin_max\<close>, \<open>dec_bin_min\<close>, \<open>dec_bin_max\<close>).
\<close>

definition bounding_scans ::
  "int list \<Rightarrow> int list \<Rightarrow> real \<Rightarrow> int \<Rightarrow> (error + int \<times> int \<times> int \<times> int \<times> int) option" where
  "bounding_scans ra_usage dec_usage ra_centroid autoscale =
     (let ra_centre_bin = ra_bin_of ra_centroid;
          ra_anti_centre = ra_centroid + pi;
          ra_anti_centre_bin = lower_bin (raise_bin (ra_bin_of ra_anti_centre)) in
      case ra_scan_forward ra_usage ra_centre_bin autoscale (ra_anti_centre_bin + 1) of
        None \<Rightarrow> None
      | Some (Inl e) \<Rightarrow> Some (Inl e)
      | Some (Inr (a1, ra_bin_min)) \<Rightarrow>
          (case ra_scan_backward ra_usage ra_centre_bin a1 ra_anti_centre_bin of
             None \<Rightarrow> None
           | Some (Inl e) \<Rightarrow> Some (Inl e)
           | Some (Inr (a2, ra_bin_max)) \<Rightarrow>
               (case dec_scan_up dec_usage a2 0 of
                  Inl e \<Rightarrow> Some (Inl e)
                | Inr (a3, dec_bin_min) \<Rightarrow>
                    (case dec_scan_down dec_usage a3 (dec_bins - 1) of
                       Inl e \<Rightarrow> Some (Inl e)
                     | Inr (a4, dec_bin_max) \<Rightarrow>
                         Some (Inr (a4, ra_bin_min, ra_bin_max, dec_bin_min, dec_bin_max))))))"

subsection \<open>Bounding window (lines 288-303)\<close>

text \<open>Lines 295-296: bring \<open>ra_max\<close> into the range \<open>(ra_min, ra_min + 24]\<close>.\<close>

function ra_max_raise :: "real \<Rightarrow> real \<Rightarrow> real" where
  "ra_max_raise ra_min ra_max =
     (if ra_max \<le> ra_min then ra_max_raise ra_min (ra_max + 24) else ra_max)"
  by pat_completeness auto
termination
proof (relation "measure (\<lambda>(lo :: real, hi :: real). nat (\<lfloor>(lo - hi) / 24\<rfloor> + 1))")
  show "wf (measure (\<lambda>(lo :: real, hi :: real). nat (\<lfloor>(lo - hi) / 24\<rfloor> + 1)))"
    by simp
next
  fix ra_min ra_max :: real
  assume le: "ra_max \<le> ra_min"
  have e: "(ra_min - (ra_max + 24)) / 24 = (ra_min - ra_max) / 24 - 1"
    by (simp add: field_simps)
  have f: "\<lfloor>(ra_min - (ra_max + 24)) / 24\<rfloor> = \<lfloor>(ra_min - ra_max) / 24\<rfloor> - 1"
    by (simp only: e floor_diff_one)
  have "0 \<le> \<lfloor>(ra_min - ra_max) / 24\<rfloor>"
    using le by simp
  then show "((ra_min, ra_max + 24), (ra_min, ra_max)) \<in>
      measure (\<lambda>(lo :: real, hi :: real). nat (\<lfloor>(lo - hi) / 24\<rfloor> + 1))"
    unfolding in_measure prod.case f by linarith
qed

declare ra_max_raise.simps [simp del]

function ra_max_lower :: "real \<Rightarrow> real \<Rightarrow> real" where
  "ra_max_lower ra_min ra_max =
     (if ra_max > ra_min + 24 then ra_max_lower ra_min (ra_max - 24) else ra_max)"
  by pat_completeness auto
termination
proof (relation "measure (\<lambda>(lo :: real, hi :: real). nat \<lceil>(hi - lo) / 24\<rceil>)")
  show "wf (measure (\<lambda>(lo :: real, hi :: real). nat \<lceil>(hi - lo) / 24\<rceil>))"
    by simp
next
  fix ra_min ra_max :: real
  assume gt: "ra_min + 24 < ra_max"
  have e: "(ra_max - 24 - ra_min) / 24 = (ra_max - ra_min) / 24 - 1"
    by (simp add: field_simps)
  have f: "\<lceil>(ra_max - 24 - ra_min) / 24\<rceil> = \<lceil>(ra_max - ra_min) / 24\<rceil> - 1"
    by (simp only: e ceiling_diff_one)
  have "1 < (ra_max - ra_min) / 24"
    using gt by simp
  then have "1 < \<lceil>(ra_max - ra_min) / 24\<rceil>"
    by (simp add: less_ceiling_iff)
  then show "((ra_min, ra_max - 24), (ra_min, ra_max)) \<in>
      measure (\<lambda>(lo :: real, hi :: real). nat \<lceil>(hi - lo) / 24\<rceil>)"
    unfolding in_measure prod.case f by linarith
qed

declare ra_max_lower.simps [simp del]

text \<open>Lines 289-296: bins to hours and degrees, then the two loops on \<open>ra_max\<close>.\<close>

definition bounding_window :: "int \<Rightarrow> int \<Rightarrow> int \<Rightarrow> int \<Rightarrow> real \<times> real \<times> real \<times> real" where
  "bounding_window ra_bin_min ra_bin_max dec_bin_min dec_bin_max =
     (let ra_min = real_of_int ra_bin_min * 24 / real_of_int ra_bins;
          ra_max = real_of_int (ra_bin_max + 1) * 24 / real_of_int ra_bins;
          dec_min = real_of_int dec_bin_min * 180 / real_of_int dec_bins - 90;
          dec_max = real_of_int (dec_bin_max + 1) * 180 / real_of_int dec_bins - 90;
          ra_max = ra_max_raise ra_min ra_max;
          ra_max = ra_max_lower ra_min ra_max
      in (ra_min, ra_max, dec_min, dec_max))"

text \<open>
  Lines 300-303. \<^verbatim>\<open>MAX\<close> and \<^verbatim>\<open>MIN\<close> are macros defined outside ephemeris.c; they
  are read as the larger and the smaller of their two arguments.
\<close>

definition angular_width_base :: "real \<times> real \<times> real \<times> real \<Rightarrow> real" where
  "angular_width_base w =
     (case w of (ra_min, ra_max, dec_min, dec_max) \<Rightarrow>
        (let a = max ((ra_max - ra_min) * 180 / 12) (dec_max - dec_min) * 1.1 in
         if a > 350 then 360 else a))"

subsection \<open>Viewport (lines 316-370)\<close>

text \<open>Lines 323-324: bring the central RA into \<open>[0, 24)\<close>.\<close>

function ra0_raise :: "real \<Rightarrow> real" where
  "ra0_raise r = (if r < 0 then ra0_raise (r + 24) else r)"
  by pat_completeness auto
termination
proof (relation "measure (\<lambda>r :: real. nat \<lceil>- r / 24\<rceil>)")
  show "wf (measure (\<lambda>r :: real. nat \<lceil>- r / 24\<rceil>))"
    by simp
next
  fix r :: real
  assume neg: "r < 0"
  have e: "- (r + 24) / 24 = - r / 24 - 1"
    by (simp add: field_simps)
  have f: "\<lceil>- (r + 24) / 24\<rceil> = \<lceil>- r / 24\<rceil> - 1"
    by (simp only: e ceiling_diff_one)
  have "0 < - r / 24"
    using neg by simp
  then have "0 < \<lceil>- r / 24\<rceil>"
    by (simp only: less_ceiling_iff of_int_0)
  then show "(r + 24, r) \<in> measure (\<lambda>r :: real. nat \<lceil>- r / 24\<rceil>)"
    unfolding in_measure f by linarith
qed

declare ra0_raise.simps [simp del]

function ra0_lower :: "real \<Rightarrow> real" where
  "ra0_lower r = (if r \<ge> 24 then ra0_lower (r - 24) else r)"
  by pat_completeness auto
termination
proof (relation "measure (\<lambda>r :: real. nat \<lfloor>r / 24\<rfloor>)")
  show "wf (measure (\<lambda>r :: real. nat \<lfloor>r / 24\<rfloor>))"
    by simp
next
  fix r :: real
  assume ge: "24 \<le> r"
  have e: "(r - 24) / 24 = r / 24 - 1"
    by (simp add: field_simps)
  have f: "\<lfloor>(r - 24) / 24\<rfloor> = \<lfloor>r / 24\<rfloor> - 1"
    by (simp only: e floor_diff_one)
  have "1 \<le> r / 24"
    using ge by simp
  then have "1 \<le> \<lfloor>r / 24\<rfloor>"
    by (simp add: le_floor_iff)
  then show "(r - 24, r) \<in> measure (\<lambda>r :: real. nat \<lfloor>r / 24\<rfloor>)"
    unfolding in_measure f by linarith
qed

declare ra0_lower.simps [simp del]

text \<open>
  Lines 332-354, the branch for charts wider than 110 degrees, and lines 358-368,
  the gnomonic branch; \<open>s\<close> already holds the centre of lines 319-324.
\<close>

definition flat_viewport :: "real \<times> real \<times> real \<times> real \<Rightarrow> chart_config \<Rightarrow> chart_config" where
  "flat_viewport w s =
     (case w of (ra_min, ra_max, dec_min, dec_max) \<Rightarrow>
        (let s = s\<lparr>projection := SW_PROJECTION_FLAT\<rparr>;
             s = s\<lparr>angular_width := angular_width_base w\<rparr>;
             s = s\<lparr>width := width s * 1.6\<rparr>;
             s = s\<lparr>font_size := font_size s * 0.95\<rparr>;
             s = s\<lparr>mag_min := min (mag_min s) 5\<rparr>;
             s = s\<lparr>maximum_star_label_count := 25\<rparr>;
             s = s\<lparr>dso_names := 0\<rparr>;
             ratio = \<bar>dec_max - dec_min\<bar> / (\<bar>ra_max - ra_min\<bar> * 180 / 12);
             s = s\<lparr>aspect := min 0.5 (ratio * 1.8)\<rparr>;
             s = (if ratio > 0.5 then s\<lparr>aspect := 1, width := width s * 0.7\<rparr> else s);
             ang_height = angular_width_base w * aspect s;
             s = s\<lparr>dec0 := max (dec0 s) (- 89 + ang_height / 2)\<rparr>;
             s = s\<lparr>dec0 := min (dec0 s) (89 - ang_height / 2)\<rparr>
         in s))"

definition gnomonic_viewport :: "real \<times> real \<times> real \<times> real \<Rightarrow> chart_config \<Rightarrow> chart_config" where
  "gnomonic_viewport w s =
     (case w of (ra_min, ra_max, dec_min, dec_max) \<Rightarrow>
        (let s = s\<lparr>projection := SW_PROJECTION_GNOM\<rparr>;
             ratio = \<bar>dec_max - dec_min\<bar> / (\<bar>ra_max - ra_min\<bar> * 180 / 12);
             s = s\<lparr>aspect := real_of_int \<lceil>ratio * 10\<rceil> / 10\<rparr>;
             s = (if aspect s < 0.5 then s\<lparr>aspect := 0.5\<rparr> else s);
             s = (if aspect s > 1.5 then s\<lparr>aspect := 1.5\<rparr> else s);
             angular_width_v = max ((ra_max - ra_min) * 180 / 12) ((dec_max - dec_min) / aspect s) * 1.1;
             angular_width_v = (if angular_width_v > 350 then 360 else angular_width_v)
         in s\<lparr>angular_width := angular_width_v\<rparr>))"

text \<open>Lines 316-370.\<close>

definition viewport_planner :: "real \<times> real \<times> real \<times> real \<Rightarrow> chart_config \<Rightarrow> chart_config" where
  "viewport_planner w s =
     (case w of (ra_min, ra_max, dec_min, dec_max) \<Rightarrow>
        if ephemeris_autoscale s \<noteq> 0 then
          (let s = s\<lparr>ra0 := (ra_min + ra_max) / 2\<rparr>;
               s = s\<lparr>dec0 := (dec_min + dec_max) / 2\<rparr>;
               s = s\<lparr>ra0 := ra0_lower (ra0_raise (ra0 s))\<rparr>;
               s = (if angular_width_base w > 22 then s\<lparr>star_flamsteed_labels := 0\<rparr> else s)
           in if angular_width_base w > 110 then flat_viewport w s else gnomonic_viewport w s)
        else s)"

subsection \<open>ephemerides_fetch as a whole\<close>

text \<open>
  The track definitions arrive already split into their Julian days, each with the
  lines its generator run prints. The result is \<open>None\<close> when an RA scan does not
  return, an error when the run is aborted or leaves an allocation, and the
  updated configuration otherwise.
\<close>

definition ephemerides_fetch ::
  "externals \<Rightarrow> track_input list \<Rightarrow> chart_config \<Rightarrow> (error + chart_config) option" where
  "ephemerides_fetch ext definitions s =
     (case fetch_tracks ext definitions of
        Inl e \<Rightarrow> Some (Inl e)
      | Inr tracks \<Rightarrow>
          (let s = s\<lparr>ephemeris_data := tracks\<rparr>;
               points = concat (map (\<lambda>e. take (nat (point_count e)) (data e)) tracks)
           in case mark_points points (replicate (nat ra_bins) 0, replicate (nat dec_bins) 0) of
                Inl e \<Rightarrow> Some (Inl e)
              | Inr (ra_usage, dec_usage) \<Rightarrow>
                  (case find_mean_position ext (map ra points) (map dec points) of
                     (ra_centroid, dec_centroid) \<Rightarrow>
                       (case bounding_scans ra_usage dec_usage ra_centroid (ephemeris_autoscale s) of
                          None \<Rightarrow> None
                        | Some (Inl e) \<Rightarrow> Some (Inl e)
                        | Some (Inr (a, ra_bin_min, ra_bin_max, dec_bin_min, dec_bin_max)) \<Rightarrow>
                            Some (Inr (viewport_planner
                              (bounding_window ra_bin_min ra_bin_max dec_bin_min dec_bin_max)
                              (s\<lparr>ephemeris_autoscale := a\<rparr>)))))))"

subsection \<open>Tick marks (plot_ephemeris, lines 427-551)\<close>






subsection \<open>Derived notions used in the statements\<close>

text \<open>
  The label the loop holds in \<^verbatim>\<open>previous_label\<close> after a run of accepted lines.
\<close>

fun last_label ::
  "(int \<Rightarrow> string) \<Rightarrow> string \<Rightarrow> (real \<times> real \<times> int \<times> int \<times> int) list \<Rightarrow> string" where
  "last_label mn previous_label [] = previous_label"
| "last_label mn previous_label (r # rs) = last_label mn (snd (store_point mn previous_label r)) rs"






subsection \<open>Example inputs\<close>

text \<open>A caller's preset configuration, with autoscale switched on.\<close>

definition example_config :: chart_config where
  "example_config =
     \<lparr>ephemeris_autoscale = 1, ra0 = 3, dec0 = 10, projection = SW_PROJECTION_GNOM,
      angular_width = 25, aspect = 1, width = 16, font_size = 1, mag_min = 6,
      maximum_star_label_count = 40, dso_names = 1, star_flamsteed_labels = 1,
      ephemeris_data = [], x_min = - 1, x_max = 1, y_min = - 1, y_max = 1, wlin = 2\<rparr>"

text \<open>
  Stand-ins for the external functions: English month names; every data line
  carries the same sky position and its length is its Julian day; a calendar of
  ten-day months starting in March 2022; the mean position of a track of equal
  points; the identity as projection.
\<close>

definition month_names :: "int \<Rightarrow> string" where
  "month_names m =
     (if m = 1 then ''January'' else if m = 2 then ''February'' else if m = 3 then ''March''
      else if m = 4 then ''April'' else if m = 5 then ''May'' else if m = 6 then ''June''
      else if m = 7 then ''July'' else if m = 8 then ''August'' else if m = 9 then ''September''
      else if m = 10 then ''October'' else if m = 11 then ''November''
      else if m = 12 then ''December'' else ''???'')"

definition example_externals :: "real \<Rightarrow> real \<Rightarrow> externals" where
  "example_externals ra_v dec_v =
     \<lparr>get_month_name = month_names,
      get_columns = (\<lambda>line. (real (length line), ra_v, dec_v)),
      inv_julian_day = (\<lambda>jd. (2022, 3 + \<lfloor>jd\<rfloor> div 10, \<lfloor>jd\<rfloor> mod 10)),
      find_mean_position = (\<lambda>ras decs. (case (ras, decs) of (r # _, d # _) \<Rightarrow> (r, d) | _ \<Rightarrow> (0, 0))),
      plane_project = (\<lambda>s r d. (r, d))\<rparr>"



definition one_line_track :: track_input where
  "one_line_track = \<lparr>jd_min = 1, jd_max = 1, generator_output = [''# header'', ''1'']\<rparr>"

definition march_1_point :: "real \<Rightarrow> real \<Rightarrow> ephemeris_point" where
  "march_1_point ra_v dec_v =
     \<lparr>ra = ra_v, dec = dec_v, text_label = Some ''Mar 2022'', day = 1, month = 3, year = 2022,
      sub_month_label = 0\<rparr>"

definition one_point_track :: "real \<Rightarrow> real \<Rightarrow> ephemeris" where
  "one_point_track ra_v dec_v =
     \<lparr>jd_start = 1, jd_end = 1, jd_step = 1 / 2, point_count = 1,
      data = [march_1_point ra_v dec_v]\<rparr>"

text \<open>A generator run that prints 21 data lines for a track allocated 20 points.\<close>

definition overlong_track :: track_input where
  "overlong_track = \<lparr>jd_min = 1, jd_max = 1, generator_output = replicate 21 ''1''\<rparr>"




subsection \<open>Priority: facts\<close>

lemma priority_major_april_below_minor:
  "sub_month_label q \<noteq> 0 \<Longrightarrow> priority i (labelled 1 4 0) < priority i q"
  by (simp add: priority_def labelled_def c_bool_def)

lemma priority_january_14_below_january_1:
  "priority i (labelled 14 1 0) < priority i (labelled 1 1 0)"
  by (simp add: priority_def labelled_def c_bool_def)

text \<open>
  C1. The score is meant to favour the starts of quarters (January, April, July,
  October), but the last term of the sum tests month 11: an October label gets no
  bonus at all (it scores like a February label), and a November label gets the
  bonus instead.
\<close>

theorem priority_october_has_no_bonus:
  "priority 0 (labelled 1 10 0) = priority 0 (labelled 1 2 0) \<and>
   priority 0 (labelled 1 11 0) < priority 0 (labelled 1 10 0) \<and>
   priority 0 (labelled 1 11 0) = priority 0 (labelled 1 4 0)"
  by (simp add: priority_def labelled_def c_bool_def)

subsection \<open>Bounding window: facts\<close>

lemma ra_max_raise_above: "ra_min < ra_max_raise ra_min ra_max"
  by (induction ra_min ra_max rule: ra_max_raise.induct) (subst ra_max_raise.simps, simp)

lemma ra_max_raise_span:
  "ra_max \<le> ra_min + 24 \<Longrightarrow> ra_max_raise ra_min ra_max \<le> ra_min + 24"
  by (induction ra_min ra_max rule: ra_max_raise.induct) (subst ra_max_raise.simps, simp)

lemma ra_max_lower_span: "ra_max_lower ra_min ra_max \<le> ra_min + 24"
  by (induction ra_min ra_max rule: ra_max_lower.induct) (subst ra_max_lower.simps, simp)

lemma ra_max_lower_above:
  "ra_min < ra_max \<Longrightarrow> ra_min < ra_max_lower ra_min ra_max"
  by (induction ra_min ra_max rule: ra_max_lower.induct) (subst ra_max_lower.simps, simp)

text \<open>
  C8. Whatever bins the scans return, after the conversion to hours and the two
  loops of lines 295-296 \<open>ra_max\<close> is strictly above \<open>ra_min\<close> and the RA span
  is at most 24 hours.
\<close>

theorem ra_window_normalised:
  "(case bounding_window ra_bin_min ra_bin_max dec_bin_min dec_bin_max of
      (ra_min, ra_max, dec_min, dec_max) \<Rightarrow> ra_min < ra_max \<and> ra_max - ra_min \<le> 24)"
proof -
  define lo where "lo = real_of_int ra_bin_min * 24 / real_of_int ra_bins"
  define hi where "hi = real_of_int (ra_bin_max + 1) * 24 / real_of_int ra_bins"
  have "lo < ra_max_lower lo (ra_max_raise lo hi)"
    by (rule ra_max_lower_above) (rule ra_max_raise_above)
  moreover have "ra_max_lower lo (ra_max_raise lo hi) - lo \<le> 24"
    using ra_max_lower_span [of lo "ra_max_raise lo hi"] by simp
  ultimately show ?thesis
    by (simp add: bounding_window_def Let_def lo_def hi_def)
qed

subsection \<open>Viewport: facts\<close>













subsection \<open>Loading: facts\<close>

lemma read_lines_skip:
  "\<not> accepted line \<Longrightarrow> read_lines ext cap (line # rest) (prev, pts) = read_lines ext cap rest (prev, pts)"
  by (auto simp: accepted_def Let_def)

lemma read_lines_take:
  "accepted line \<Longrightarrow> read_lines ext cap (line # rest) (prev, pts) =
     (if int (length pts) < cap then
        read_lines ext cap rest
          (snd (store_point (get_month_name ext) prev (decode_line ext (dropWhile c_space line))),
           pts @ [fst (store_point (get_month_name ext) prev (decode_line ext (dropWhile c_space line)))])
      else Inl OutOfBounds)"
  by (auto simp: accepted_def Let_def split: prod.splits)

lemma read_lines_within:
  "filter accepted lines = [] \<or> int (length pts) + int (length (filter accepted lines)) \<le> cap \<Longrightarrow>
   read_lines ext cap lines (prev, pts) =
     Inr (last_label (get_month_name ext) prev (accepted_records ext lines),
          pts @ label_points (get_month_name ext) prev (accepted_records ext lines))"
proof (induction lines arbitrary: prev pts)
  case Nil
  show ?case by (simp add: accepted_records_def)
next
  case (Cons line rest)
  show ?case
  proof (cases "accepted line")
    case False
    with Cons show ?thesis
      by (simp add: read_lines_skip accepted_records_def del: read_lines.simps)
  next
    case True
    with Cons.prems have room: "int (length pts) < cap"
      and rest: "filter accepted rest = [] \<or>
        int (length (pts @ [p])) + int (length (filter accepted rest)) \<le> cap" for p
      by auto
    show ?thesis
      using True room Cons.IH [OF rest]
      by (simp add: read_lines_take accepted_records_def del: read_lines.simps)
  qed
qed

lemma read_lines_overflow:
  "filter accepted lines \<noteq> [] \<Longrightarrow> cap < int (length pts) + int (length (filter accepted lines)) \<Longrightarrow>
   read_lines ext cap lines (prev, pts) = Inl OutOfBounds"
proof (induction lines arbitrary: prev pts)
  case Nil
  then show ?case by simp
next
  case (Cons line rest)
  show ?case
  proof (cases "accepted line")
    case False
    with Cons show ?thesis
      by (simp add: read_lines_skip del: read_lines.simps)
  next
    case True
    show ?thesis
    proof (cases "int (length pts) < cap")
      case False
      with True show ?thesis
        by (simp add: read_lines_take del: read_lines.simps)
    next
      case room: True
      with Cons.prems True have "filter accepted rest \<noteq> []"
        by (cases "filter accepted rest") auto
      moreover have "cap < int (length (pts @ [p])) + int (length (filter accepted rest))" for p
        using Cons.prems True by simp
      ultimately show ?thesis
        using True room Cons.IH by (simp add: read_lines_take del: read_lines.simps)
    qed
  qed
qed

lemma length_label_points [simp]: "length (label_points mn prev recs) = length recs"
  by (induction recs arbitrary: prev) simp_all

lemma length_accepted_records [simp]:
  "length (accepted_records ext lines) = length (filter accepted lines)"
  by (simp add: accepted_records_def)

lemma label_points_Nil_iff [simp]: "label_points mn prev recs = [] \<longleftrightarrow> recs = []"
  by (cases recs) simp_all

lemma accepted_records_Nil_iff [simp]:
  "accepted_records ext lines = [] \<longleftrightarrow> filter accepted lines = []"
  by (simp add: accepted_records_def)

lemma fetch_track_cases:
  "fetch_track ext t =
     (let n = length (filter accepted (generator_output t));
          cap = capacity_estimate (jd_min t) (jd_max t) 0.5 in
      if n = 0 then Inl (Fatal ''ephemeris-compute-de430 returned no data'')
      else if cap < int n then Inl OutOfBounds
      else Inr \<lparr>jd_start = jd_min t, jd_end = jd_max t, jd_step = 0.5, point_count = int n,
               data = label_points (get_month_name ext) [] (accepted_records ext (generator_output t))\<rparr>)"
proof -
  define n where "n = length (filter accepted (generator_output t))"
  define cap where "cap = capacity_estimate (jd_min t) (jd_max t) 0.5"
  consider "n = 0" | "n \<noteq> 0" "cap < int n" | "n \<noteq> 0" "int n \<le> cap"
    by linarith
  then show ?thesis
  proof cases
    case 1
    then have "filter accepted (generator_output t) = []"
      by (simp add: n_def)
    then have "read_lines ext cap (generator_output t) ([], []) = Inr ([], [])"
      using read_lines_within [of "generator_output t" "[]" cap ext "[]"]
      by (simp add: accepted_records_def)
    then show ?thesis
      unfolding fetch_track_def Let_def n_def [symmetric] cap_def [symmetric]
      using 1 by simp
  next
    case 2
    then have "filter accepted (generator_output t) \<noteq> []"
      by (auto simp: n_def)
    then have "read_lines ext cap (generator_output t) ([], []) = Inl OutOfBounds"
      using 2 read_lines_overflow [of "generator_output t" cap "[]" ext "[]"]
      by (simp add: n_def)
    then show ?thesis
      unfolding fetch_track_def Let_def n_def [symmetric] cap_def [symmetric]
      using 2 by simp
  next
    case 3
    then have "read_lines ext cap (generator_output t) ([], []) =
      Inr (last_label (get_month_name ext) [] (accepted_records ext (generator_output t)),
           label_points (get_month_name ext) [] (accepted_records ext (generator_output t)))"
      using read_lines_within [of "generator_output t" "[]" cap ext "[]"]
      by (simp add: n_def)
    then show ?thesis
      unfolding fetch_track_def Let_def n_def [symmetric] cap_def [symmetric]
      using 3 by (simp add: n_def)
  qed
qed

subsection \<open>Runs on the example inputs\<close>

lemmas loader_defs = fetch_track_def capacity_estimate_def c_int_def c_space_def
  store_point_def decode_line_def make_label_def show_label_def strncmp_differs_def
  show_int_def show_nat.simps digit_char_def

lemma fetch_one_line:
  "fetch_track (example_externals ra_v dec_v) one_line_track = Inr (one_point_track ra_v dec_v)"
  by (simp add: loader_defs one_line_track_def example_externals_def month_names_def
      one_point_track_def march_1_point_def)

lemma points_one: "take (nat (point_count (one_point_track ra_v dec_v))) (data (one_point_track ra_v dec_v))
   = [march_1_point ra_v dec_v]"
  by (simp add: one_point_track_def)

lemma ra_bin_quarter: "ra_bin_of (pi / 2) = 48"
  by (simp add: ra_bin_of_def ra_bins_def c_int_def)

lemma dec_bin_equator: "dec_bin_of 0 = 72"
  by (simp add: dec_bin_of_def dec_bins_def c_int_def)

lemma dec_bin_pole: "dec_bin_of (pi / 2) = 144"
  by (simp add: dec_bin_of_def dec_bins_def c_int_def)

lemma ra_bin_95: "ra_bin_of (pi * 191 / 192) = 95"
  by (simp add: ra_bin_of_def ra_bins_def c_int_def)

lemma ra_bin_anti_191: "ra_bin_of (383 * pi / 192) = 191"
  by (simp add: ra_bin_of_def ra_bins_def c_int_def)

lemma ra_bin_anti_144: "ra_bin_of (3 * pi / 2) = 144"
  by (simp add: ra_bin_of_def ra_bins_def c_int_def)

lemma wrap_in_range: "0 \<le> b \<Longrightarrow> b < 192 \<Longrightarrow> lower_bin (raise_bin b) = b"
  by (simp add: raise_bin.simps lower_bin.simps ra_bins_def)

lemma mark_quarter:
  "mark_points [march_1_point (pi / 2) 0] (replicate (nat ra_bins) 0, replicate (nat dec_bins) 0) =
     Inr ((replicate 192 0)[48 := 1], (replicate 144 0)[72 := 1])"
  by (simp add: march_1_point_def array_set_def ra_bin_quarter dec_bin_equator ra_bins_def dec_bins_def)

lemma mark_pole:
  "mark_points [march_1_point 0 (pi / 2)] (replicate (nat ra_bins) 0, replicate (nat dec_bins) 0) =
     Inl OutOfBounds"
  by (simp add: march_1_point_def array_set_def dec_bin_pole ra_bin_of_def c_int_def ra_bins_def dec_bins_def)

lemma mark_95:
  "mark_points [march_1_point (pi * 191 / 192) 0] (replicate (nat ra_bins) 0, replicate (nat dec_bins) 0) =
     Inr ((replicate 192 0)[95 := 1], (replicate 144 0)[72 := 1])"
  by (simp add: march_1_point_def array_set_def ra_bin_95 dec_bin_equator ra_bins_def dec_bins_def)

lemma scans_quarter:
  "bounding_scans ((replicate 192 0)[48 := 1]) ((replicate 144 0)[72 := 1]) (pi / 2) a =
     Some (Inr (a, 48, 48, 72, 72))"
  by (simp add: bounding_scans_def ra_bin_quarter ra_bin_anti_144 wrap_in_range
      ra_scan_forward.simps ra_scan_backward.simps dec_scan_up.simps dec_scan_down.simps
      nth_list_update ra_bins_def dec_bins_def Let_def)

lemma scans_95:
  "bounding_scans ((replicate 192 0)[95 := 1]) ((replicate 144 0)[72 := 1]) (pi * 191 / 192) a =
     Some (Inl OutOfBounds)"
  by (simp add: bounding_scans_def ra_bin_95 ra_bin_anti_191 wrap_in_range
      ra_scan_forward.simps Let_def)

lemma mean_one: "find_mean_position (example_externals ra_v dec_v)
    [ra (march_1_point r d)] [dec (march_1_point r d)] = (r, d)"
  by (simp add: example_externals_def march_1_point_def)

lemma run_quarter:
  "ephemerides_fetch (example_externals (pi / 2) 0) [one_line_track]
     (example_config\<lparr>ephemeris_autoscale := 0\<rparr>) =
   Some (Inr (example_config\<lparr>ephemeris_autoscale := 0,
     ephemeris_data := [one_point_track (pi / 2) 0]\<rparr>))"
  by (simp add: ephemerides_fetch_def fetch_one_line points_one mark_quarter mean_one
      scans_quarter Let_def viewport_planner_def del: mark_points.simps)

subsection \<open>Grid indices\<close>

text \<open>
  C2. Two runs leave the usage arrays. A track whose centroid has RA
  \<open>191\<pi>/192\<close> (bin 95) has its antipodal bin at 191, and the forward scan's first
  probe reads index 192 of the 192-bin array: line 243 adds 1 without the wrap that
  line 250 applies to every later step. A track point at declination \<open>\<pi>/2\<close> gets
  Dec bin 144 of a 144-bin array: line 211 does not clamp.
\<close>

theorem first_probe_and_pole_leave_the_grid:
  "ephemerides_fetch (example_externals (pi * 191 / 192) 0) [one_line_track] example_config =
     Some (Inl OutOfBounds) \<and>
   ephemerides_fetch (example_externals 0 (pi / 2)) [one_line_track] example_config =
     Some (Inl OutOfBounds)"
  by (simp add: ephemerides_fetch_def fetch_one_line points_one mark_95 mark_pole mean_one
      scans_95 Let_def del: mark_points.simps)

text \<open>
  C5. With the antipodal bin at 191 the forward scan starts outside the grid, so it
  neither stops at an occupied bin nor reaches its sentinel.
\<close>

theorem forward_scan_starts_outside_grid:
  "lower_bin (raise_bin (ra_bin_of (pi * 191 / 192 + pi))) + 1 = ra_bins \<and>
   ra_scan_forward ((replicate 192 0)[95 := 1]) (ra_bin_of (pi * 191 / 192)) 1 ra_bins =
     Some (Inl OutOfBounds) \<and>
   bounding_scans ((replicate 192 0)[95 := 1]) ((replicate 144 0)[72 := 1]) (pi * 191 / 192) 1 =
     Some (Inl OutOfBounds)"
  by (simp add: scans_95 ra_bin_95 ra_bin_anti_191 wrap_in_range ra_scan_forward.simps ra_bins_def)

subsection \<open>Capacity of the point array\<close>

text \<open>
  C10. The loop writes \<^verbatim>\<open>data[line_counter]\<close> without comparing \<^verbatim>\<open>line_counter\<close>
  with the allocated count: a track allocated 20 points whose generator run prints
  21 data lines is written at index 20.
\<close>

theorem overlong_output_overflows:
  "capacity_estimate (jd_min overlong_track) (jd_max overlong_track) 0.5 = 20 \<and>
   length (filter accepted (generator_output overlong_track)) = 21 \<and>
   fetch_track (example_externals 0 0) overlong_track = Inl OutOfBounds"
proof -
  have cap: "capacity_estimate (jd_min overlong_track) (jd_max overlong_track) 0.5 = 20"
    by (simp add: overlong_track_def capacity_estimate_def c_int_def)
  have n: "length (filter accepted (generator_output overlong_track)) = 21"
    by (simp add: overlong_track_def accepted_def c_space_def)
  show ?thesis
    unfolding fetch_track_cases Let_def cap n by (simp add: cap n)
qed

subsection \<open>Exclusion rectangles\<close>



subsection \<open>Autoscale switched off\<close>

lemma flat_autoscale: "ephemeris_autoscale (flat_viewport w s) = ephemeris_autoscale s"
proof -
  obtain ra_min ra_max dec_min dec_max where w: "w = (ra_min, ra_max, dec_min, dec_max)"
    by (cases w)
  define ratio where "ratio = \<bar>dec_max - dec_min\<bar> / (\<bar>ra_max - ra_min\<bar> * 180 / 12)"
  define a where "a = angular_width_base (ra_min, ra_max, dec_min, dec_max)"
  show ?thesis
    unfolding w flat_viewport_def prod.case ratio_def [symmetric] a_def [symmetric]
    by (cases "ratio > 0.5") (simp_all add: Let_def)
qed

lemma planner_off: "ephemeris_autoscale s = 0 \<Longrightarrow> viewport_planner w s = s"
  by (cases w) (simp add: viewport_planner_def)

lemma gnomonic_autoscale: "ephemeris_autoscale (gnomonic_viewport w s) = ephemeris_autoscale s"
proof -
  obtain ra_min ra_max dec_min dec_max where w: "w = (ra_min, ra_max, dec_min, dec_max)"
    by (cases w)
  define ratio where "ratio = \<bar>dec_max - dec_min\<bar> / (\<bar>ra_max - ra_min\<bar> * 180 / 12)"
  define c where "c = real_of_int \<lceil>ratio * 10\<rceil> / 10"
  show ?thesis
    unfolding w gnomonic_viewport_def prod.case ratio_def [symmetric]
    by (simp add: Let_def c_def [symmetric])
qed

lemma planner_autoscale: "ephemeris_autoscale (viewport_planner w s) = ephemeris_autoscale s"
proof -
  obtain ra_min ra_max dec_min dec_max where w: "w = (ra_min, ra_max, dec_min, dec_max)"
    by (cases w)
  define a where "a = angular_width_base (ra_min, ra_max, dec_min, dec_max)"
  show ?thesis
    unfolding w viewport_planner_def prod.case a_def [symmetric]
    by (simp add: Let_def flat_autoscale gnomonic_autoscale)
qed

lemma fetch_result:
  assumes "ephemerides_fetch ext definitions s = Some (Inr s')"
  shows "\<exists>tracks a b1 b2 b3 b4. s' = viewport_planner (bounding_window b1 b2 b3 b4)
     (s\<lparr>ephemeris_data := tracks, ephemeris_autoscale := a\<rparr>)"
  using assms unfolding ephemerides_fetch_def Let_def
  by (auto split: sum.splits prod.splits option.splits intro!: exI)

text \<open>
  C9. When \<^verbatim>\<open>ephemerides_fetch\<close> returns with autoscale off (switched off by the
  caller or by a failed scan), the eleven viewport and style fields are the
  caller's.
\<close>

theorem autoscale_off_keeps_viewport:
  assumes "ephemerides_fetch ext definitions s = Some (Inr s')"
    and "ephemeris_autoscale s' = 0"
  shows "ra0 s' = ra0 s \<and> dec0 s' = dec0 s \<and> projection s' = projection s \<and>
    angular_width s' = angular_width s \<and> aspect s' = aspect s \<and> width s' = width s \<and>
    font_size s' = font_size s \<and> mag_min s' = mag_min s \<and>
    maximum_star_label_count s' = maximum_star_label_count s \<and>
    dso_names s' = dso_names s \<and> star_flamsteed_labels s' = star_flamsteed_labels s"
proof -
  obtain tracks a w where
    s': "s' = viewport_planner w (s\<lparr>ephemeris_data := tracks, ephemeris_autoscale := a\<rparr>)"
    using fetch_result [OF assms(1)] by blast
  have "a = 0"
    using assms(2) unfolding s' planner_autoscale by simp
  then have "s' = s\<lparr>ephemeris_data := tracks, ephemeris_autoscale := a\<rparr>"
    unfolding s' by (simp add: planner_off)
  then show ?thesis by simp
qed

theorem autoscale_off_keeps_viewport_witness:
  "\<exists>s'. ephemerides_fetch (example_externals (pi / 2) 0) [one_line_track]
      (example_config\<lparr>ephemeris_autoscale := 0\<rparr>) = Some (Inr s') \<and>
    ephemeris_autoscale s' = 0 \<and> ephemeris_data s' = [one_point_track (pi / 2) 0] \<and>
    ra0 s' = 3 \<and> dec0 s' = 10 \<and> projection s' = SW_PROJECTION_GNOM \<and>
    angular_width s' = 25 \<and> aspect s' = 1 \<and> width s' = 16 \<and> font_size s' = 1 \<and>
    mag_min s' = 6 \<and> maximum_star_label_count s' = 40 \<and> dso_names s' = 1 \<and>
    star_flamsteed_labels s' = 1"
proof -
  define s' where "s' = example_config\<lparr>ephemeris_autoscale := 0,
     ephemeris_data := [one_point_track (pi / 2) 0]\<rparr>"
  have run: "ephemerides_fetch (example_externals (pi / 2) 0) [one_line_track]
      (example_config\<lparr>ephemeris_autoscale := 0\<rparr>) = Some (Inr s')"
    unfolding s'_def by (rule run_quarter)
  have off: "ephemeris_autoscale s' = 0"
    by (simp add: s'_def)
  have "ephemeris_data s' = [one_point_track (pi / 2) 0]"
    by (simp add: s'_def)
  with autoscale_off_keeps_viewport [OF run off] run off show ?thesis
    by (intro exI [of _ s']) (simp add: example_config_def)
qed

subsection \<open>A generator run without data\<close>

















subsection \<open>Labels along a track\<close>


























subsection \<open>Bounding scans: facts\<close>

lemma mod_192_wrap:
  fixes x :: int
  assumes "- 192 \<le> x" "x < 192"
  shows "x mod 192 = (if 0 \<le> x then x else x + 192)"
proof (cases "0 \<le> x")
  case True
  with assms show ?thesis by simp
next
  case False
  with assms have lo: "0 \<le> x + 192" and hi: "x + 192 < 192" by simp_all
  have "x mod 192 = (x + 192) mod 192"
    by (rule mod_add_self2 [symmetric])
  also from lo hi have "\<dots> = x + 192"
    by (rule mod_pos_pos_trivial)
  finally show ?thesis
    using False by simp
qed

lemma forward_step_distance:
  fixes b c :: int
  assumes "0 \<le> b" "b < 192" "0 \<le> c" "c < 192" "b \<noteq> c"
  shows "0 \<le> (b + 1) mod 192 \<and> (b + 1) mod 192 < 192 \<and>
    nat ((c - (b + 1) mod 192) mod 192) < nat ((c - b) mod 192)"
proof -
  have next_bin: "(b + 1) mod 192 = (if b = 191 then 0 else b + 1)"
    using assms by simp
  have "(c - b) mod 192 = (if 0 \<le> c - b then c - b else c - b + 192)"
    using assms by (intro mod_192_wrap) simp_all
  moreover have "(c - (b + 1) mod 192) mod 192 =
      (if 0 \<le> c - (b + 1) mod 192 then c - (b + 1) mod 192 else c - (b + 1) mod 192 + 192)"
    using assms unfolding next_bin by (intro mod_192_wrap) simp_all
  ultimately show ?thesis
    using assms unfolding next_bin by (simp split: if_splits)
qed

lemma backward_step_distance:
  fixes b c :: int
  assumes "0 \<le> b" "b < 192" "0 \<le> c" "c < 192" "b \<noteq> c"
  shows "0 \<le> (b + 192 - 1) mod 192 \<and> (b + 192 - 1) mod 192 < 192 \<and>
    nat (((b + 192 - 1) mod 192 - c) mod 192) < nat ((b - c) mod 192)"
proof -
  have prev_bin: "(b + 192 - 1) mod 192 = (if b = 0 then 191 else b - 1)"
  proof (cases "b = 0")
    case True
    then show ?thesis by simp
  next
    case False
    with assms have lo: "0 \<le> b - 1" and hi: "b - 1 < 192" by simp_all
    have e: "b + 192 - 1 = b - 1 + 192" by simp
    have "(b - 1 + 192) mod 192 = (b - 1) mod 192"
      by (rule mod_add_self2)
    also from lo hi have "\<dots> = b - 1"
      by (rule mod_pos_pos_trivial)
    finally show ?thesis
      unfolding e using False by simp
  qed
  have "(b - c) mod 192 = (if 0 \<le> b - c then b - c else b - c + 192)"
    using assms by (intro mod_192_wrap) simp_all
  moreover have "((b + 192 - 1) mod 192 - c) mod 192 =
      (if 0 \<le> (b + 192 - 1) mod 192 - c then (b + 192 - 1) mod 192 - c
       else (b + 192 - 1) mod 192 - c + 192)"
    using assms unfolding prev_bin by (intro mod_192_wrap) simp_all
  ultimately show ?thesis
    using assms unfolding prev_bin by (simp split: if_splits)
qed


lemma ra_scan_forward_returns:
  assumes len: "length u = 192" and c: "0 \<le> c" "c < 192"
  shows "0 \<le> b \<Longrightarrow> b < 192 \<Longrightarrow>
    \<exists>a' r. ra_scan_forward u c a b = Some (Inr (a', r)) \<and> 0 \<le> r \<and> r < 192 \<and>
      (u ! nat r \<noteq> 0 \<and> a' = a \<or> r = c \<and> u ! nat r = 0 \<and> a' = 0)"
proof (induction "nat ((c - b) mod 192)" arbitrary: b rule: less_induct)
  case less
  show ?case
  proof (cases "u ! nat b \<noteq> 0")
    case True
    with less.prems len show ?thesis
      by (subst ra_scan_forward.simps) simp
  next
    case empty: False
    show ?thesis
    proof (cases "b = c")
      case True
      with empty less.prems len show ?thesis
        by (subst ra_scan_forward.simps) simp
    next
      case False
      note step = forward_step_distance [OF less.prems c False]
      from step have "\<exists>a' r. ra_scan_forward u c a ((b + 1) mod 192) = Some (Inr (a', r)) \<and>
          0 \<le> r \<and> r < 192 \<and> (u ! nat r \<noteq> 0 \<and> a' = a \<or> r = c \<and> u ! nat r = 0 \<and> a' = 0)"
        by (intro less.hyps) simp_all
      moreover have "ra_scan_forward u c a b = ra_scan_forward u c a ((b + 1) mod 192)"
        using empty False less.prems len
        by (subst ra_scan_forward.simps) (simp add: ra_bins_def)
      ultimately show ?thesis by simp
    qed
  qed
qed

lemma ra_scan_backward_returns:
  assumes len: "length u = 192" and c: "0 \<le> c" "c < 192"
  shows "0 \<le> b \<Longrightarrow> b < 192 \<Longrightarrow>
    \<exists>a' r. ra_scan_backward u c a b = Some (Inr (a', r)) \<and> 0 \<le> r \<and> r < 192 \<and>
      (u ! nat r \<noteq> 0 \<and> a' = a \<or> r = c \<and> u ! nat r = 0 \<and> a' = 0)"
proof (induction "nat ((b - c) mod 192)" arbitrary: b rule: less_induct)
  case less
  show ?case
  proof (cases "u ! nat b \<noteq> 0")
    case True
    with less.prems len show ?thesis
      by (subst ra_scan_backward.simps) simp
  next
    case empty: False
    show ?thesis
    proof (cases "b = c")
      case True
      with empty less.prems len show ?thesis
        by (subst ra_scan_backward.simps) simp
    next
      case False
      note step = backward_step_distance [OF less.prems c False]
      from step have "\<exists>a' r. ra_scan_backward u c a ((b + 192 - 1) mod 192) = Some (Inr (a', r)) \<and>
          0 \<le> r \<and> r < 192 \<and> (u ! nat r \<noteq> 0 \<and> a' = a \<or> r = c \<and> u ! nat r = 0 \<and> a' = 0)"
        by (intro less.hyps) simp_all
      moreover have "ra_scan_backward u c a b = ra_scan_backward u c a ((b + 192 - 1) mod 192)"
        using empty False less.prems len
        by (subst ra_scan_backward.simps) (simp add: ra_bins_def)
      ultimately show ?thesis by simp
    qed
  qed
qed

lemma dec_scan_up_returns:
  "length u = 144 \<Longrightarrow> 0 \<le> b \<Longrightarrow> b < 144 \<Longrightarrow>
    \<exists>a' r. dec_scan_up u a b = Inr (a', r) \<and> b \<le> r \<and> r < 144 \<and>
      (u ! nat r \<noteq> 0 \<and> a' = a \<or> r = 143 \<and> u ! nat r = 0 \<and> a' = 0)"
proof (induction u a b rule: dec_scan_up.induct)
  case (1 u a b)
  show ?case
  proof (cases "u ! nat b \<noteq> 0 \<or> b = 143")
    case True
    with "1.prems" show ?thesis
      by (subst dec_scan_up.simps) (auto simp: dec_bins_def)
  next
    case False
    with "1.prems" have "\<exists>a' r. dec_scan_up u a (b + 1) = Inr (a', r) \<and> b + 1 \<le> r \<and> r < 144 \<and>
        (u ! nat r \<noteq> 0 \<and> a' = a \<or> r = 143 \<and> u ! nat r = 0 \<and> a' = 0)"
      by (intro "1.IH") (simp_all add: dec_bins_def)
    moreover have "dec_scan_up u a b = dec_scan_up u a (b + 1)"
      using False "1.prems" by (subst dec_scan_up.simps) (simp add: dec_bins_def)
    ultimately show ?thesis by force
  qed
qed

lemma dec_scan_down_returns:
  "length u = 144 \<Longrightarrow> 0 \<le> b \<Longrightarrow> b < 144 \<Longrightarrow>
    \<exists>a' r. dec_scan_down u a b = Inr (a', r) \<and> 0 \<le> r \<and> r \<le> b \<and>
      (u ! nat r \<noteq> 0 \<and> a' = a \<or> r = 0 \<and> u ! nat r = 0 \<and> a' = 0)"
proof (induction u a b rule: dec_scan_down.induct)
  case (1 u a b)
  show ?case
  proof (cases "u ! nat b \<noteq> 0 \<or> b = 0")
    case True
    with "1.prems" show ?thesis
      by (subst dec_scan_down.simps) auto
  next
    case False
    with "1.prems" have "\<exists>a' r. dec_scan_down u a (b - 1) = Inr (a', r) \<and> 0 \<le> r \<and> r \<le> b - 1 \<and>
        (u ! nat r \<noteq> 0 \<and> a' = a \<or> r = 0 \<and> u ! nat r = 0 \<and> a' = 0)"
      by (intro "1.IH") simp_all
    moreover have "dec_scan_down u a b = dec_scan_down u a (b - 1)"
      using False "1.prems" by (subst dec_scan_down.simps) simp
    ultimately show ?thesis by force
  qed
qed


lemma raise_bin_nonneg: "0 \<le> raise_bin b"
  by (induction b rule: raise_bin.induct) (subst raise_bin.simps, simp)

lemma lower_bin_range: "0 \<le> b \<Longrightarrow> 0 \<le> lower_bin b \<and> lower_bin b < 192"
proof (induction b rule: lower_bin.induct)
  case (1 b)
  show ?case
  proof (cases "b \<ge> 192")
    case True
    then have "lower_bin b = lower_bin (b - 192)"
      by (subst lower_bin.simps) (simp add: ra_bins_def)
    with 1 True show ?thesis
      by (simp add: ra_bins_def)
  next
    case False
    then have "lower_bin b = b"
      by (subst lower_bin.simps) (simp add: ra_bins_def)
    with 1 False show ?thesis
      by simp
  qed
qed

lemma anti_centre_bin_range: "0 \<le> lower_bin (raise_bin b) \<and> lower_bin (raise_bin b) < 192"
  by (rule lower_bin_range) (rule raise_bin_nonneg)

text \<open>
  The four scans on grids of the allocated sizes. When the centroid's bin lies in
  the RA array and the antipodal bin is not the last one (so that the forward scan
  starts inside the array), all four scans return with bins inside their arrays; the
  autoscale flag comes back as the caller's or cleared, and when it is not cleared
  the four bins are occupied.
\<close>

theorem bounding_scans_return:
  assumes ra_len: "length ra_usage = 192" and dec_len: "length dec_usage = 144"
    and centre: "0 \<le> ra_bin_of ra_centroid" "ra_bin_of ra_centroid < 192"
    and anti: "lower_bin (raise_bin (ra_bin_of (ra_centroid + pi))) \<noteq> 191"
  shows "\<exists>a' ra_bin_min ra_bin_max dec_bin_min dec_bin_max.
     bounding_scans ra_usage dec_usage ra_centroid a =
       Some (Inr (a', ra_bin_min, ra_bin_max, dec_bin_min, dec_bin_max)) \<and>
     0 \<le> ra_bin_min \<and> ra_bin_min < 192 \<and> 0 \<le> ra_bin_max \<and> ra_bin_max < 192 \<and>
     0 \<le> dec_bin_min \<and> dec_bin_min < 144 \<and> 0 \<le> dec_bin_max \<and> dec_bin_max < 144 \<and>
     (a' = a \<or> a' = 0) \<and>
     (a' = 0 \<or> ra_usage ! nat ra_bin_min \<noteq> 0 \<and> ra_usage ! nat ra_bin_max \<noteq> 0 \<and>
        dec_usage ! nat dec_bin_min \<noteq> 0 \<and> dec_usage ! nat dec_bin_max \<noteq> 0)"
proof -
  define c where "c = ra_bin_of ra_centroid"
  define b where "b = lower_bin (raise_bin (ra_bin_of (ra_centroid + pi)))"
  have b: "0 \<le> b" "b < 192"
    using anti_centre_bin_range [of "ra_bin_of (ra_centroid + pi)"] by (simp_all add: b_def)
  with anti have b1: "0 \<le> b + 1" "b + 1 < 192"
    by (simp_all add: b_def)
  have c: "0 \<le> c" "c < 192"
    using centre by (simp_all add: c_def)
  obtain a1 r1 where s1: "ra_scan_forward ra_usage c a (b + 1) = Some (Inr (a1, r1))"
    and r1: "0 \<le> r1" "r1 < 192"
    and o1: "ra_usage ! nat r1 \<noteq> 0 \<and> a1 = a \<or> r1 = c \<and> ra_usage ! nat r1 = 0 \<and> a1 = 0"
    using ra_scan_forward_returns [OF ra_len c b1, of a] by blast
  obtain a2 r2 where s2: "ra_scan_backward ra_usage c a1 b = Some (Inr (a2, r2))"
    and r2: "0 \<le> r2" "r2 < 192"
    and o2: "ra_usage ! nat r2 \<noteq> 0 \<and> a2 = a1 \<or> r2 = c \<and> ra_usage ! nat r2 = 0 \<and> a2 = 0"
    using ra_scan_backward_returns [OF ra_len c b, of a1] by blast
  obtain a3 r3 where s3: "dec_scan_up dec_usage a2 0 = Inr (a3, r3)"
    and r3: "0 \<le> r3" "r3 < 144"
    and o3: "dec_usage ! nat r3 \<noteq> 0 \<and> a3 = a2 \<or> r3 = 143 \<and> dec_usage ! nat r3 = 0 \<and> a3 = 0"
    using dec_scan_up_returns [OF dec_len, of 0 a2] by auto
  obtain a4 r4 where s4: "dec_scan_down dec_usage a3 143 = Inr (a4, r4)"
    and r4: "0 \<le> r4" "r4 < 144"
    and o4: "dec_usage ! nat r4 \<noteq> 0 \<and> a4 = a3 \<or> r4 = 0 \<and> dec_usage ! nat r4 = 0 \<and> a4 = 0"
    using dec_scan_down_returns [OF dec_len, of 143 a3] by auto
  have run: "bounding_scans ra_usage dec_usage ra_centroid a = Some (Inr (a4, r1, r2, r3, r4))"
    unfolding bounding_scans_def Let_def c_def [symmetric] b_def [symmetric]
    by (simp add: s1 s2 s3 s4 dec_bins_def)
  have flag: "a4 = a \<or> a4 = 0"
    using o1 o2 o3 o4 by blast
  have found: "a4 = 0 \<or> ra_usage ! nat r1 \<noteq> 0 \<and> ra_usage ! nat r2 \<noteq> 0 \<and>
      dec_usage ! nat r3 \<noteq> 0 \<and> dec_usage ! nat r4 \<noteq> 0"
    using o1 o2 o3 o4 by blast
  show ?thesis
    by (intro exI [of _ a4] exI [of _ r1] exI [of _ r2] exI [of _ r3] exI [of _ r4]
        conjI run r1 r2 r3 r4 flag found)
qed

theorem bounding_scans_return_witness:
  "length ((replicate 192 0)[48 := 1 :: int]) = 192 \<and>
   length ((replicate 144 0)[72 := 1 :: int]) = 144 \<and>
   0 \<le> ra_bin_of (pi / 2) \<and> ra_bin_of (pi / 2) < 192 \<and>
   lower_bin (raise_bin (ra_bin_of (pi / 2 + pi))) \<noteq> 191 \<and>
   (\<exists>a' ra_bin_min ra_bin_max dec_bin_min dec_bin_max.
     bounding_scans ((replicate 192 0)[48 := 1]) ((replicate 144 0)[72 := 1]) (pi / 2) 1 =
       Some (Inr (a', ra_bin_min, ra_bin_max, dec_bin_min, dec_bin_max)) \<and>
     0 \<le> ra_bin_min \<and> ra_bin_min < 192 \<and> 0 \<le> ra_bin_max \<and> ra_bin_max < 192 \<and>
     0 \<le> dec_bin_min \<and> dec_bin_min < 144 \<and> 0 \<le> dec_bin_max \<and> dec_bin_max < 144 \<and>
     (a' = 1 \<or> a' = 0) \<and>
     (a' = 0 \<or> ((replicate 192 0)[48 := 1 :: int]) ! nat ra_bin_min \<noteq> 0 \<and>
        ((replicate 192 0)[48 := 1 :: int]) ! nat ra_bin_max \<noteq> 0 \<and>
        ((replicate 144 0)[72 := 1 :: int]) ! nat dec_bin_min \<noteq> 0 \<and>
        ((replicate 144 0)[72 := 1 :: int]) ! nat dec_bin_max \<noteq> 0))"
proof -
  have l1: "length ((replicate 192 0)[48 := 1 :: int]) = 192"
    and l2: "length ((replicate 144 0)[72 := 1 :: int]) = 144"
    by simp_all
  have c1: "0 \<le> ra_bin_of (pi / 2)" and c2: "ra_bin_of (pi / 2) < 192"
    by (simp_all add: ra_bin_quarter)
  have an: "lower_bin (raise_bin (ra_bin_of (pi / 2 + pi))) \<noteq> 191"
    by (simp add: ra_bin_anti_144 wrap_in_range)
  show ?thesis
    by (intro conjI l1 l2 c1 c2 an bounding_scans_return [OF l1 l2 c1 c2 an])
qed

end
